theory Spec2Isabelle
  imports Complex_Main "HOL-Library.List_Lexorder" "HOL-Library.Char_ord" "HOL-Library.AList"
begin

section \<open>The analyzers of chairvise-backend, embedded in HOL\<close>

text \<open>
  The controller module exports three analyzers, \<open>getAuthorInfo\<close>, \<open>getReviewInfo\<close> and
  \<open>getSubmissionInfo\<close>. Each decodes an uploaded buffer to text, puts a fixed header line
  in front of it, hands the text to papaparse and aggregates the parsed rows.

  Conventions of the embedding:
  \<^item> Text is a \<^typ>\<open>string\<close>. The code inspects text only for ASCII characters (carriage
    return, line feed, space, colon, comma); the decoded text of the buffer is the input.
  \<^item> A JavaScript number is a \<open>jsnum\<close>: a finite value is the rational it denotes, next to
    \<open>NaN\<close> and the two infinities. The rounding of IEEE doubles and the sign of zero are
    not modelled.
  \<^item> A thrown \<open>TypeError\<close> is the left injection of a sum; \<open>console.error\<close> has no
    effect on the result and is left out.
  \<^item> What the module imports and this development does not have (papaparse, the
    runtime's conversion of numbers to text, its Unicode tables, and the module
    \<open>./util\<close>) is the record \<open>env\<close>, a parameter of every analyzer.
\<close>

subsection \<open>Numbers and values\<close>

datatype jsnum = Fin rat | NaN | PosInf | NegInf

datatype jsval = JUndefined | JNull | JBool bool | JNum jsnum | JStr string

datatype error = TypeError

fun jneg :: "jsnum \<Rightarrow> jsnum" where
  "jneg (Fin a) = Fin (- a)"
| "jneg NaN = NaN"
| "jneg PosInf = NegInf"
| "jneg NegInf = PosInf"

text \<open>\<open>a + b\<close> on numbers.\<close>

fun jadd :: "jsnum \<Rightarrow> jsnum \<Rightarrow> jsnum" where
  "jadd (Fin a) (Fin b) = Fin (a + b)"
| "jadd NaN _ = NaN"
| "jadd _ NaN = NaN"
| "jadd PosInf NegInf = NaN"
| "jadd NegInf PosInf = NaN"
| "jadd PosInf _ = PosInf"
| "jadd NegInf _ = NegInf"
| "jadd _ PosInf = PosInf"
| "jadd _ NegInf = NegInf"

text \<open>The sign of a number that is not \<open>NaN\<close>: \<open>-1\<close>, \<open>0\<close> or \<open>1\<close>.\<close>

fun jsign :: "jsnum \<Rightarrow> int" where
  "jsign (Fin a) = (if a < 0 then - 1 else if a = 0 then 0 else 1)"
| "jsign PosInf = 1"
| "jsign NegInf = - 1"
| "jsign NaN = 0"

definition signed_inf :: "int \<Rightarrow> jsnum" where
  "signed_inf s = (if s < 0 then NegInf else PosInf)"

text \<open>\<open>a * b\<close> on numbers: an infinity times zero is \<open>NaN\<close>.\<close>

fun jmul :: "jsnum \<Rightarrow> jsnum \<Rightarrow> jsnum" where
  "jmul (Fin a) (Fin b) = Fin (a * b)"
| "jmul NaN _ = NaN"
| "jmul _ NaN = NaN"
| "jmul a b = (if jsign a * jsign b = 0 then NaN else signed_inf (jsign a * jsign b))"

text \<open>
  \<open>a / b\<close> on numbers: \<open>0 / 0\<close> is \<open>NaN\<close>, any other finite number over zero is an
  infinity (the zero taken as positive), a finite number over an infinity is zero.
\<close>

fun jdiv :: "jsnum \<Rightarrow> jsnum \<Rightarrow> jsnum" where
  "jdiv NaN _ = NaN"
| "jdiv _ NaN = NaN"
| "jdiv (Fin a) (Fin b) =
     (if b = 0 then (if a = 0 then NaN else signed_inf (jsign (Fin a))) else Fin (a / b))"
| "jdiv (Fin a) _ = Fin 0"
| "jdiv a (Fin b) = signed_inf (jsign a * (if b < 0 then - 1 else 1))"
| "jdiv _ _ = NaN"

text \<open>\<open>Math.min(a, b)\<close> on numbers.\<close>

fun Math_min :: "jsnum \<Rightarrow> jsnum \<Rightarrow> jsnum" where
  "Math_min NaN _ = NaN"
| "Math_min _ NaN = NaN"
| "Math_min NegInf _ = NegInf"
| "Math_min _ NegInf = NegInf"
| "Math_min PosInf b = b"
| "Math_min a PosInf = a"
| "Math_min (Fin a) (Fin b) = Fin (min a b)"

subsection \<open>Text\<close>

definition CR :: char where
  "CR = CHR 0x0D"

definition LF :: char where
  "LF = CHR 0x0A"

text \<open>\<open>s.indexOf(c)\<close> for a one-character search string: \<open>-1\<close> when \<open>c\<close> does not occur.\<close>

definition indexOf :: "string \<Rightarrow> char \<Rightarrow> int" where
  "indexOf s c = (if c \<in> set s then int (length (takeWhile (\<lambda>x. x \<noteq> c) s)) else - 1)"

text \<open>\<open>s.substring(start)\<close>: a negative start counts as zero, one past the end as the end.\<close>

definition substring :: "string \<Rightarrow> int \<Rightarrow> string" where
  "substring s start = drop (nat (max 0 start)) s"

text \<open>
  \<open>s.split(/[\r\n]+/)\<close>: the text between maximal runs of line breaks. The first argument
  collects the current piece in reverse; the flag says that the last character read was a
  line break.
\<close>

definition is_newline :: "char \<Rightarrow> bool" where
  "is_newline c = (c = CR \<or> c = LF)"

fun split_lines_acc :: "string \<Rightarrow> bool \<Rightarrow> string \<Rightarrow> string list" where
  "split_lines_acc cur insep [] = [rev cur]"
| "split_lines_acc cur insep (c # cs) =
     (if is_newline c
      then (if insep then split_lines_acc cur True cs
            else rev cur # split_lines_acc [] True cs)
      else split_lines_acc (c # cur) False cs)"

definition split_lines :: "string \<Rightarrow> string list" where
  "split_lines s = split_lines_acc [] False s"

text \<open>\<open>s.split(sep)\<close> for a separator string \<open>sep = s0 # ss\<close>.\<close>

fun split_acc :: "char \<Rightarrow> string \<Rightarrow> string \<Rightarrow> string \<Rightarrow> string list" where
  "split_acc s0 ss cur [] = [rev cur]"
| "split_acc s0 ss cur (c # cs) =
     (if c = s0 \<and> take (length ss) cs = ss
      then rev cur # split_acc s0 ss [] (drop (length ss) cs)
      else split_acc s0 ss (c # cur) cs)"

definition split :: "string \<Rightarrow> string \<Rightarrow> string list" where
  "split s sep = (case sep of [] \<Rightarrow> map (\<lambda>c. [c]) s | s0 # ss \<Rightarrow> split_acc s0 ss [] s)"

text \<open>\<open>xs[i]\<close> on an array of strings: \<open>undefined\<close> out of range.\<close>

definition elem_at :: "string list \<Rightarrow> nat \<Rightarrow> jsval" where
  "elem_at xs i = (if i < length xs then JStr (xs ! i) else JUndefined)"

text \<open>
  \<open>s.replace(pat, rep)\<close> for a string pattern: the first occurrence only. The
  replacement the code passes, a comma, has no \<open>$\<close> pattern.
\<close>

fun replace :: "string \<Rightarrow> string \<Rightarrow> string \<Rightarrow> string" where
  "replace [] pat rep = (if pat = [] then rep else [])"
| "replace (c # cs) pat rep =
     (if take (length pat) (c # cs) = pat then rep @ drop (length pat) (c # cs)
      else c # replace cs pat rep)"

subsection \<open>Text to number\<close>

definition is_digit :: "char \<Rightarrow> bool" where
  "is_digit c = (CHR ''0'' \<le> c \<and> c \<le> CHR ''9'')"

text \<open>The value of a digit of a radix up to 16, \<open>None\<close> for any other character.\<close>

definition digit_of :: "char \<Rightarrow> int option" where
  "digit_of c =
     (if CHR ''0'' \<le> c \<and> c \<le> CHR ''9'' then Some (of_char c - 48)
      else if CHR ''a'' \<le> c \<and> c \<le> CHR ''f'' then Some (of_char c - 87)
      else if CHR ''A'' \<le> c \<and> c \<le> CHR ''F'' then Some (of_char c - 55)
      else None)"

definition radix_val :: "int \<Rightarrow> string \<Rightarrow> int option" where
  "radix_val r s =
     (if s \<noteq> [] \<and> list_all (\<lambda>c. case digit_of c of None \<Rightarrow> False | Some d \<Rightarrow> d < r) s
      then Some (foldl (\<lambda>n c. r * n + the (digit_of c)) 0 s)
      else None)"

definition digits_val :: "string \<Rightarrow> int" where
  "digits_val s = foldl (\<lambda>n c. 10 * n + (of_char c - 48)) 0 s"

text \<open>The white space and line terminators among the 8-bit characters.\<close>

definition is_ws :: "char \<Rightarrow> bool" where
  "is_ws c = (of_char c \<in> {9, 10, 11, 12, 13, 32, 160 :: nat})"

definition trim_ws :: "string \<Rightarrow> string" where
  "trim_ws s = rev (dropWhile is_ws (rev (dropWhile is_ws s)))"

text \<open>\<open>ExponentPart\<close>, or nothing: the power of ten.\<close>

definition exponent_part :: "string \<Rightarrow> int option" where
  "exponent_part s =
     (case s of
        [] \<Rightarrow> Some 0
      | e # r \<Rightarrow>
          if e = CHR ''e'' \<or> e = CHR ''E''
          then (let neg = (r \<noteq> [] \<and> hd r = CHR ''-'');
                    ds = (if r \<noteq> [] \<and> (hd r = CHR ''-'' \<or> hd r = CHR ''+'') then tl r else r)
                in if ds \<noteq> [] \<and> list_all is_digit ds
                   then Some (if neg then - digits_val ds else digits_val ds)
                   else None)
          else None)"

text \<open>
  \<open>StrUnsignedDecimalLiteral\<close> without \<open>Infinity\<close>: digits, an optional fraction, an
  optional exponent, with a digit on one side of the point at least.
\<close>

definition unsigned_decimal :: "string \<Rightarrow> rat option" where
  "unsigned_decimal s =
     (let ip = takeWhile is_digit s;
          r1 = dropWhile is_digit s;
          dot = (r1 \<noteq> [] \<and> hd r1 = CHR ''.'');
          fp = (if dot then takeWhile is_digit (tl r1) else []);
          r2 = (if dot then dropWhile is_digit (tl r1) else r1)
      in if ip = [] \<and> fp = [] then None
         else (case exponent_part r2 of
                 None \<Rightarrow> None
               | Some e \<Rightarrow>
                   Some ((of_int (digits_val ip) + of_int (digits_val fp) / 10 ^ length fp)
                         * (if 0 \<le> e then 10 ^ nat e else 1 / 10 ^ nat (- e)))))"

definition unsigned_literal :: "string \<Rightarrow> jsnum" where
  "unsigned_literal s =
     (if s = ''Infinity'' then PosInf
      else (case unsigned_decimal s of None \<Rightarrow> NaN | Some q \<Rightarrow> Fin q))"

text \<open>\<open>NonDecimalIntegerLiteral\<close>: \<open>0x\<close>, \<open>0o\<close> or \<open>0b\<close> and digits of that radix.\<close>

definition non_decimal :: "string \<Rightarrow> int option" where
  "non_decimal s =
     (case s of
        z # p # ds \<Rightarrow>
          if z \<noteq> CHR ''0'' then None
          else if p = CHR ''x'' \<or> p = CHR ''X'' then radix_val 16 ds
          else if p = CHR ''o'' \<or> p = CHR ''O'' then radix_val 8 ds
          else if p = CHR ''b'' \<or> p = CHR ''B'' then radix_val 2 ds
          else None
      | _ \<Rightarrow> None)"

text \<open>
  \<open>StringToNumber\<close>: white space trimmed; the empty text is zero; text that is no numeric
  literal is \<open>NaN\<close>.
\<close>

definition StringToNumber :: "string \<Rightarrow> jsnum" where
  "StringToNumber s =
     (let t = trim_ws s
      in if t = [] then Fin 0
         else (case non_decimal t of
                 Some n \<Rightarrow> Fin (of_int n)
               | None \<Rightarrow>
                   if hd t = CHR ''-'' then jneg (unsigned_literal (tl t))
                   else if hd t = CHR ''+'' then unsigned_literal (tl t)
                   else unsigned_literal t))"

fun ToNumber :: "jsval \<Rightarrow> jsnum" where
  "ToNumber JUndefined = NaN"
| "ToNumber JNull = Fin 0"
| "ToNumber (JBool b) = Fin (if b then 1 else 0)"
| "ToNumber (JNum n) = n"
| "ToNumber (JStr s) = StringToNumber s"

subsection \<open>Number to text with one fraction digit\<close>

text \<open>The decimal digits of an integer that is not negative.\<close>

function digits :: "int \<Rightarrow> string" where
  "digits n = (if n < 10 then [char_of (48 + n)] else digits (n div 10) @ [char_of (48 + n mod 10)])"
  by pat_completeness auto
termination
  by (relation "measure nat") auto

declare digits.simps [simp del]

subsection \<open>Objects\<close>

text \<open>
  A plain object is the list of its own properties in the order in which the runtime
  enumerates them (\<open>for ... in\<close>, \<open>Object.keys\<close>): the keys that are array indices first,
  in ascending numeric order, then the other keys in the order of their creation.
\<close>

type_synonym 'a obj = "(string \<times> 'a) list"

text \<open>An array index: the canonical decimal text of an integer from \<open>0\<close> to \<open>2^32 - 2\<close>.\<close>

definition is_array_index :: "string \<Rightarrow> bool" where
  "is_array_index k =
     (k \<noteq> [] \<and> list_all is_digit k \<and> (k = ''0'' \<or> hd k \<noteq> CHR ''0'')
      \<and> digits_val k < 2 ^ 32 - 1)"

text \<open>A new index key goes before the first property that is no smaller index.\<close>

fun insert_index :: "string \<Rightarrow> 'a \<Rightarrow> 'a obj \<Rightarrow> 'a obj" where
  "insert_index k v [] = [(k, v)]"
| "insert_index k v ((k', v') # m) =
     (if is_array_index k' \<and> digits_val k' < digits_val k
      then (k', v') # insert_index k v m
      else (k, v) # (k', v') # m)"

text \<open>\<open>o[k] = v\<close>: an existing property keeps its place.\<close>

definition obj_set :: "'a obj \<Rightarrow> string \<Rightarrow> 'a \<Rightarrow> 'a obj" where
  "obj_set m k v =
     (if k \<in> fst ` set m then map (\<lambda>(k', v'). if k' = k then (k', v) else (k', v')) m
      else if is_array_index k then insert_index k v m
      else m @ [(k, v)])"

text \<open>A parsed row: the object papaparse builds for one record. \<open>row.name\<close> is \<open>field\<close>.\<close>

type_synonym row = "jsval obj"

definition field :: "row \<Rightarrow> string \<Rightarrow> jsval" where
  "field r name = (case map_of r name of None \<Rightarrow> JUndefined | Some v \<Rightarrow> v)"

subsection \<open>What the module imports\<close>

text \<open>
  \<^item> \<open>Papa_parse\<close>: \<open>Papa.parse(content, papaConfig).data\<close>, the rows parsed from a text
    (the errors of the parse are only logged).
  \<^item> \<open>numToString\<close>: the runtime's conversion of a number to text.
  \<^item> \<open>toLowerCase\<close>, \<open>trim\<close>: the methods of \<open>String.prototype\<close>.
  \<^item> \<open>fillRange\<close>, \<open>util_sum\<close> (imported as \<open>sum\<close>), \<open>getSortedArrayFromMapUsingCount\<close>
    and \<open>getSortedArrayFromMapUsingKey\<close>: the functions of \<open>./util\<close>, whose source is not
    part of this development. \<open>fillRange\<close> is taken to return an array of numbers, the two
    sorting functions an array of \<open>[key, count]\<close> pairs; \<open>util_sum\<close> is the callback handed
    to \<open>Array.prototype.reduce\<close>.
\<close>

record env =
  Papa_parse :: "string \<Rightarrow> row list"
  numToString :: "jsnum \<Rightarrow> string"
  toLowerCase :: "string \<Rightarrow> string"
  trim :: "string \<Rightarrow> string"
  fillRange :: "jsnum \<Rightarrow> jsnum \<Rightarrow> jsnum \<Rightarrow> jsnum list"
  util_sum :: "jsval \<Rightarrow> jsval \<Rightarrow> jsval"
  getSortedArrayFromMapUsingCount :: "nat obj \<Rightarrow> (string \<times> nat) list"
  getSortedArrayFromMapUsingKey :: "nat obj \<Rightarrow> (string \<times> nat) list"

text \<open>\<open>ToString\<close>, which also makes a property key of a value.\<close>

fun ToString :: "env \<Rightarrow> jsval \<Rightarrow> string" where
  "ToString e JUndefined = ''undefined''"
| "ToString e JNull = ''null''"
| "ToString e (JBool b) = (if b then ''true'' else ''false'')"
| "ToString e (JNum n) = numToString e n"
| "ToString e (JStr s) = s"

text \<open>
  \<open>x.toFixed(1)\<close>: the sign, then the nearest multiple of a tenth of the absolute value
  (the larger one of two), with one digit after the point; the runtime's text for a value
  that is not finite or is \<open>10^21\<close> or more.
\<close>

fun toFixed1 :: "env \<Rightarrow> jsnum \<Rightarrow> string" where
  "toFixed1 e (Fin q) =
     (let s = (if q < 0 then ''-'' else []);
          a = \<bar>q\<bar>
      in if 10 ^ 21 \<le> a then s @ numToString e (Fin a)
         else (let n = \<lfloor>a * 10 + 1 / 2\<rfloor>
               in s @ digits (n div 10) @ ''.'' @ digits (n mod 10)))"
| "toFixed1 e n = numToString e n"

text \<open>\<open>xs.reduce(f)\<close> with no initial value: a \<open>TypeError\<close> on the empty array.\<close>

fun reduce :: "('a \<Rightarrow> 'a \<Rightarrow> 'a) \<Rightarrow> 'a list \<Rightarrow> error + 'a" where
  "reduce f [] = Inl TypeError"
| "reduce f (x # xs) = Inr (foldl f x xs)"

subsection \<open>lodash\<close>

text \<open>\<open>_.countBy(xs)\<close>: how often each key occurs, the key of a value being its text.\<close>

definition countBy :: "env \<Rightarrow> jsval list \<Rightarrow> nat obj" where
  "countBy e xs =
     foldl (\<lambda>m v. obj_set m (ToString e v)
                    (case map_of m (ToString e v) of None \<Rightarrow> 1 | Some c \<Rightarrow> c + 1)) [] xs"

text \<open>\<open>_.groupBy(rows, name)\<close>: the rows of each key, in their order.\<close>

definition groupBy :: "env \<Rightarrow> row list \<Rightarrow> string \<Rightarrow> (row list) obj" where
  "groupBy e rows name =
     foldl (\<lambda>m r. obj_set m (ToString e (field r name))
                    (case map_of m (ToString e (field r name)) of
                       None \<Rightarrow> [r] | Some g \<Rightarrow> g @ [r])) [] rows"

text \<open>\<open>_.mapValues(o)\<close> with no iteratee: a copy of \<open>o\<close>.\<close>

definition mapValues :: "'a obj \<Rightarrow> 'a obj" where
  "mapValues m = m"

subsection \<open>getAuthorInfo\<close>



record 'a info =
  infoType :: string
  infoData :: 'a










subsection \<open>getReviewInfo\<close>

text \<open>
  An array whose elements are written by a computed key: the elements, and the properties
  that a key which is no array index creates on the array object. Such a property is no
  element: it is not counted by \<open>length\<close> and is left out when the array is
  serialised. A hole reads as \<open>undefined\<close>.
\<close>

record jsarray =
  elems :: "jsval list"
  props :: "(jsnum \<times> jsval) list"

definition array_of :: "jsnum list \<Rightarrow> jsarray" where
  "array_of xs = \<lparr>elems = map JNum xs, props = []\<rparr>"

text \<open>\<open>v + 1\<close>.\<close>

fun plus_one :: "jsval \<Rightarrow> jsval" where
  "plus_one (JNum n) = JNum (jadd n (Fin 1))"
| "plus_one JUndefined = JNum NaN"
| "plus_one JNull = JNum (Fin 1)"
| "plus_one (JBool b) = JNum (Fin (if b then 2 else 1))"
| "plus_one (JStr s) = JStr (s @ ''1'')"

text \<open>The key \<open>i\<close> is an array index: a whole number from \<open>0\<close> to \<open>2^32 - 2\<close>.\<close>

fun is_index :: "jsnum \<Rightarrow> bool" where
  "is_index (Fin q) = (q = of_int \<lfloor>q\<rfloor> \<and> 0 \<le> q \<and> q < 4294967295)"
| "is_index _ = False"

fun index_of :: "jsnum \<Rightarrow> nat" where
  "index_of (Fin q) = nat \<lfloor>q\<rfloor>"
| "index_of _ = 0"

text \<open>
  \<open>a[i] += 1\<close>: an index in range updates the element, an index past the end extends the
  array over holes, any other key reads and writes a property of that name.
\<close>

definition incr :: "jsarray \<Rightarrow> jsnum \<Rightarrow> jsarray" where
  "incr a i =
     (if is_index i
      then (if index_of i < length (elems a)
            then a\<lparr>elems := (elems a)[index_of i := plus_one (elems a ! index_of i)]\<rparr>
            else a\<lparr>elems := elems a @ replicate (index_of i - length (elems a)) JUndefined
                              @ [plus_one JUndefined]\<rparr>)
      else a\<lparr>props := AList.update i
                 (plus_one (case map_of (props a) i of None \<Rightarrow> JUndefined | Some v \<Rightarrow> v))
                 (props a)\<rparr>)"

record distribution =
  dist_labels :: "string list"
  dist_counts :: jsarray

record score_entry =
  score :: jsnum
  recommend :: jsnum

record review_info =
  IDReviewMap :: "score_entry obj"
  scoreList :: "jsnum list"
  meanScore :: jsnum
  meanConfidence :: jsnum
  recommendList :: "jsnum list"
  scoreDistribution :: distribution
  recommendDistribution :: distribution

definition review_header :: string where
  "review_header =
     ''reviewId, paperId, reviewerId, reviewerName, unknown, text, scores, overallScore, unknown, unknown, unknown, unknown, date, time, recommend''
     @ [LF]"

text \<open>
  The labels: \<open>counts[i] + ' ~ ' + counts[i + 1]\<close> for \<open>i\<close> below \<open>counts.length - 1\<close>,
  read from the array that \<open>fillRange\<close> returned, before any count is added.
\<close>

definition distribution_labels :: "env \<Rightarrow> jsnum list \<Rightarrow> string list" where
  "distribution_labels e xs =
     map (\<lambda>i. numToString e (xs ! i) @ '' ~ '' @ numToString e (xs ! (i + 1)))
       [0 ..< length xs - 1]"

text \<open>
  \<open>evaluation[i].split(': ')[1]\<close>: a \<open>TypeError\<close> when the block has no line \<open>i\<close>,
  \<open>undefined\<close> when the line has no \<open>': '\<close>.
\<close>

definition line_value :: "string list \<Rightarrow> nat \<Rightarrow> error + jsval" where
  "line_value evaluation i =
     (if i < length evaluation then Inr (elem_at (split (evaluation ! i) '': '') 1)
      else Inl TypeError)"

text \<open>
  One review: its score and its confidence, as the texts cut out of the \<open>scores\<close> block,
  and its recommendation, \<open>1\<close> or \<open>0\<close>. \<open>review.scores.split\<close> throws unless \<open>scores\<close> is
  a string.
\<close>

definition parse_scores :: "row \<Rightarrow> error + (jsval \<times> jsval \<times> jsnum)" where
  "parse_scores review =
     (case field review ''scores'' of
        JStr s \<Rightarrow>
          (let evaluation = split_lines s
           in case line_value evaluation 0 of
                Inl err \<Rightarrow> Inl err
              | Inr score_text \<Rightarrow>
                  (case line_value evaluation 1 of
                     Inl err \<Rightarrow> Inl err
                   | Inr confidence_text \<Rightarrow>
                       Inr (score_text, confidence_text,
                            if 2 < length evaluation
                            then (if elem_at (split (evaluation ! 2) '': '') 1 = JStr ''yes''
                                  then Fin 1 else Fin 0)
                            else Fin 0)))
      | _ \<Rightarrow> Inl TypeError)"

fun parse_group :: "row list \<Rightarrow> error + (jsval \<times> jsval \<times> jsnum) list" where
  "parse_group [] = Inr []"
| "parse_group (r # rs) =
     (case parse_scores r of
        Inl err \<Rightarrow> Inl err
      | Inr t \<Rightarrow> (case parse_group rs of Inl err \<Rightarrow> Inl err | Inr ts \<Rightarrow> Inr (t # ts)))"

text \<open>The variables that the loop over the submissions updates.\<close>

record review_state =
  confidenceList :: "jsnum list"
  var_recommendList :: "jsnum list"
  var_scoreList :: "jsnum list"
  submissionIDReviewMap :: "score_entry obj"
  scoreDistributionCounts :: jsarray
  recommendDistributionCounts :: jsarray

definition weighted_scores :: "(jsval \<times> jsval \<times> jsnum) list \<Rightarrow> jsval list" where
  "weighted_scores ts = map (\<lambda>(s, c, r). JNum (jmul (ToNumber s) (ToNumber c))) ts"

definition weighted_recommends :: "(jsval \<times> jsval \<times> jsnum) list \<Rightarrow> jsval list" where
  "weighted_recommends ts = map (\<lambda>(s, c, r). JNum (jmul r (ToNumber c))) ts"

text \<open>\<open>Math.min(x.toFixed(1), lastColumn)\<close>: the text of \<open>toFixed\<close> is converted back to a number.\<close>

definition column :: "env \<Rightarrow> jsnum \<Rightarrow> jsnum \<Rightarrow> jsnum" where
  "column e x lastColumn = Math_min (StringToNumber (toFixed1 e x)) lastColumn"

definition scoreColumn :: "env \<Rightarrow> jsnum \<Rightarrow> jsnum" where
  "scoreColumn e totalWeightedScore =
     column e (jdiv (jadd totalWeightedScore (Fin 3)) (Fin (1 / 4))) (Fin 23)"

definition recommendColumn :: "env \<Rightarrow> jsnum \<Rightarrow> jsnum" where
  "recommendColumn e totalWeightedRecommend =
     column e (jdiv totalWeightedRecommend (Fin (1 / 10))) (Fin 9)"

text \<open>The body of the loop, for the reviews of one submission.\<close>

definition review_group :: "env \<Rightarrow> review_state \<Rightarrow> string \<Rightarrow> row list \<Rightarrow> error + review_state" where
  "review_group e st submissionId reviews =
     (case parse_group reviews of
        Inl err \<Rightarrow> Inl err
      | Inr ts \<Rightarrow>
          (case reduce (util_sum e) (map (\<lambda>(s, c, r). c) ts) of
             Inl err \<Rightarrow> Inl err
           | Inr confidenceSum \<Rightarrow>
               (case reduce (util_sum e) (weighted_scores ts) of
                  Inl err \<Rightarrow> Inl err
                | Inr ws \<Rightarrow>
                    (case reduce (util_sum e) (weighted_recommends ts) of
                       Inl err \<Rightarrow> Inl err
                     | Inr wr \<Rightarrow>
                         (let totalWeightedScore = jdiv (ToNumber ws) (ToNumber confidenceSum);
                              totalWeightedRecommend = jdiv (ToNumber wr) (ToNumber confidenceSum)
                          in Inr
                               \<lparr>confidenceList =
                                  confidenceList st
                                  @ [jdiv (ToNumber confidenceSum) (Fin (of_nat (length ts)))],
                                var_recommendList = var_recommendList st @ [totalWeightedRecommend],
                                var_scoreList = var_scoreList st @ [totalWeightedScore],
                                submissionIDReviewMap =
                                  obj_set (submissionIDReviewMap st) submissionId
                                    \<lparr>score = totalWeightedScore,
                                     recommend = totalWeightedRecommend\<rparr>,
                                scoreDistributionCounts =
                                  incr (scoreDistributionCounts st)
                                    (scoreColumn e totalWeightedScore),
                                recommendDistributionCounts =
                                  incr (recommendDistributionCounts st)
                                    (recommendColumn e totalWeightedRecommend)\<rparr>)))))"

fun review_loop :: "env \<Rightarrow> review_state \<Rightarrow> (row list) obj \<Rightarrow> error + review_state" where
  "review_loop e st [] = Inr st"
| "review_loop e st ((submissionId, reviews) # groups) =
     (case review_group e st submissionId reviews of
        Inl err \<Rightarrow> Inl err
      | Inr st' \<Rightarrow> review_loop e st' groups)"

text \<open>\<open>xs.reduce(sum) / xs.length\<close>.\<close>

definition mean :: "env \<Rightarrow> jsnum list \<Rightarrow> error + jsnum" where
  "mean e xs =
     (case reduce (util_sum e) (map JNum xs) of
        Inl err \<Rightarrow> Inl err
      | Inr s \<Rightarrow> Inr (jdiv (ToNumber s) (Fin (of_nat (length xs)))))"

definition review_init :: "env \<Rightarrow> review_state" where
  "review_init e =
     \<lparr>confidenceList = [], var_recommendList = [], var_scoreList = [],
      submissionIDReviewMap = [],
      scoreDistributionCounts = array_of (fillRange e (Fin (- 3)) (Fin 3) (Fin (1 / 4))),
      recommendDistributionCounts = array_of (fillRange e (Fin 0) (Fin 1) (Fin (1 / 10)))\<rparr>"

definition review_rows :: "env \<Rightarrow> string \<Rightarrow> row list" where
  "review_rows e file = Papa_parse e (review_header @ file)"

definition getReviewInfo :: "env \<Rightarrow> string \<Rightarrow> error + review_info info" where
  "getReviewInfo e file =
     (let scoreDistributionLabels =
            distribution_labels e (fillRange e (Fin (- 3)) (Fin 3) (Fin (1 / 4)));
          recommendDistributionLabels =
            distribution_labels e (fillRange e (Fin 0) (Fin 1) (Fin (1 / 10)));
          reviewsGroupBySubmissionId = mapValues (groupBy e (review_rows e file) ''paperId'')
      in case review_loop e (review_init e) reviewsGroupBySubmissionId of
           Inl err \<Rightarrow> Inl err
         | Inr st \<Rightarrow>
             (case mean e (var_scoreList st) of
                Inl err \<Rightarrow> Inl err
              | Inr meanScore_v \<Rightarrow>
                  (case mean e (confidenceList st) of
                     Inl err \<Rightarrow> Inl err
                   | Inr meanConfidence_v \<Rightarrow>
                       Inr \<lparr>infoType = ''review'',
                            infoData =
                              \<lparr>IDReviewMap = submissionIDReviewMap st,
                               scoreList = var_scoreList st,
                               meanScore = meanScore_v,
                               meanConfidence = meanConfidence_v,
                               recommendList = var_recommendList st,
                               scoreDistribution =
                                 \<lparr>dist_labels = scoreDistributionLabels,
                                  dist_counts = scoreDistributionCounts st\<rparr>,
                               recommendDistribution =
                                 \<lparr>dist_labels = recommendDistributionLabels,
                                  dist_counts = recommendDistributionCounts st\<rparr>\<rparr>\<rparr>)))"

text \<open>
  Modelled from the spec: the function \<open>sum\<close> of \<open>./util\<close>, which is not among the
  sources. The spec calls it a numeric fold; as the callback of \<open>reduce\<close> it adds its two
  arguments as numbers.
\<close>

definition spec_sum :: "jsval \<Rightarrow> jsval \<Rightarrow> jsval" where
  "spec_sum a b = JNum (jadd (ToNumber a) (ToNumber b))"

subsection \<open>getSubmissionInfo\<close>

record name_counts =
  names :: "string list"
  counts :: "nat list"

text \<open>A point \<open>{x: date, y: count}\<close> of a time series.\<close>

type_synonym point = "string \<times> nat"

text \<open>The table of the acceptance rates of past conferences, a literal of the function body.\<close>

record comparable =
  year :: "int list"
  Full_Papers :: "jsnum list"
  Short_Papers :: "jsnum list"

definition comparable_init :: comparable where
  "comparable_init =
     \<lparr>year = [2010, 2011, 2012, 2013, 2014, 2015, 2016, 2017, 2018],
      Full_Papers =
        map Fin [29 / 100, 28 / 100, 27 / 100, 29 / 100, 29 / 100, 30 / 100, 29 / 100, 30 / 100],
      Short_Papers =
        map Fin [29 / 100, 37 / 100, 31 / 100, 31 / 100, 32 / 100, 50 / 100, 35 / 100, 32 / 100]\<rparr>"

text \<open>What the loop over the track groups fills in.\<close>

record track_state =
  keywordsByTrack :: "((string \<times> nat) list) obj"
  acceptanceRateByTrack :: "jsnum obj"
  topAuthorsByTrack :: "name_counts obj"
  comparableAcceptanceRate :: comparable

record submission_info = track_state +
  acceptanceRate :: jsnum
  overallKeywordMap :: "nat obj"
  overallKeywordList :: "(string \<times> nat) list"
  acceptedKeywordMap :: "nat obj"
  acceptedKeywordList :: "(string \<times> nat) list"
  rejectedKeywordMap :: "nat obj"
  rejectedKeywordList :: "(string \<times> nat) list"
  topAcceptedAuthors :: name_counts
  timeSeries :: "point list"
  lastEditSeries :: "point list"

definition submission_header :: string where
  "submission_header =
     ''submissionId, trackId, trackName, title, authors, submitTime, lastUpdateTime, formFields, keywords, decision, notified, reviewsSent, abstract''
     @ [CR]"

definition submission_content :: "string \<Rightarrow> string" where
  "submission_content file = submission_header @ substring file (indexOf file CR + 1)"

text \<open>\<open>row.keywords.split(/[\r\n]+/).map(x => x.toLowerCase())\<close>.\<close>

definition keywords_of :: "env \<Rightarrow> row \<Rightarrow> error + string list" where
  "keywords_of e r =
     (case field r ''keywords'' of
        JStr s \<Rightarrow> Inr (map (toLowerCase e) (split_lines s))
      | _ \<Rightarrow> Inl TypeError)"

text \<open>\<open>row.authors.replace(' and ', ',').split(',').map(x => x.trim())\<close>.\<close>

definition author_names_of :: "env \<Rightarrow> row \<Rightarrow> error + string list" where
  "author_names_of e r =
     (case field r ''authors'' of
        JStr s \<Rightarrow> Inr (map (trim e) (split (replace s '' and '' '','') '',''))
      | _ \<Rightarrow> Inl TypeError)"

text \<open>\<open>row.submitTime.split(' ')[0]\<close>.\<close>

definition submit_date :: "row \<Rightarrow> error + jsval" where
  "submit_date r =
     (case field r ''submitTime'' of
        JStr s \<Rightarrow> Inr (elem_at (split s '' '') 0)
      | _ \<Rightarrow> Inl TypeError)"

text \<open>
  The date of a row as the spec words it: the text of \<open>submitTime\<close> before the first
  space.
\<close>

definition date_part :: "row \<Rightarrow> string" where
  "date_part r =
     (case field r ''submitTime'' of JStr s \<Rightarrow> takeWhile (\<lambda>c. c \<noteq> CHR '' '') s | _ \<Rightarrow> [])"

definition is_accept :: "row \<Rightarrow> bool" where
  "is_accept r = (field r ''decision'' = JStr ''accept'')"

definition is_reject :: "row \<Rightarrow> bool" where
  "is_reject r = (field r ''decision'' = JStr ''reject'')"

text \<open>The arrays that the first pass over the rows fills.\<close>

record submission_state =
  acceptedSubs :: "row list"
  rejectedSubs :: "row list"
  submissionTimes :: "jsval list"
  lastUpdateTimes :: "jsval list"
  acceptedKeywords :: "string list"
  rejectedKeywords :: "string list"
  allKeywords :: "string list"
  trackNames :: "jsval list"
  acceptedAuthorNames :: "string list"

definition submission_init :: submission_state where
  "submission_init =
     \<lparr>acceptedSubs = [], rejectedSubs = [], submissionTimes = [], lastUpdateTimes = [],
      acceptedKeywords = [], rejectedKeywords = [], allKeywords = [], trackNames = [],
      acceptedAuthorNames = []\<rparr>"

text \<open>
  The body of the first pass. The three method calls that can throw are evaluated first:
  a throw leaves the analyzer whatever was pushed before it. Both time arrays receive the
  date of \<open>row.submitTime\<close>.
\<close>

definition submission_row :: "env \<Rightarrow> submission_state \<Rightarrow> row \<Rightarrow> error + submission_state" where
  "submission_row e st r =
     (case keywords_of e r of
        Inl err \<Rightarrow> Inl err
      | Inr kws \<Rightarrow>
          (case (if \<not> is_reject r \<and> is_accept r then author_names_of e r else Inr []) of
             Inl err \<Rightarrow> Inl err
           | Inr authors \<Rightarrow>
               (case submit_date r of
                  Inl err \<Rightarrow> Inl err
                | Inr date \<Rightarrow>
                    (let st1 =
                           (if is_reject r
                            then st\<lparr>rejectedSubs := rejectedSubs st @ [r],
                                    rejectedKeywords := rejectedKeywords st @ kws\<rparr>
                            else if is_accept r
                            then st\<lparr>acceptedSubs := acceptedSubs st @ [r],
                                    acceptedKeywords := acceptedKeywords st @ kws,
                                    acceptedAuthorNames := acceptedAuthorNames st @ authors\<rparr>
                            else st)
                     in Inr (st1\<lparr>allKeywords := allKeywords st1 @ kws,
                                  trackNames := trackNames st1 @ [field r ''trackName''],
                                  submissionTimes := submissionTimes st1 @ [date],
                                  lastUpdateTimes := lastUpdateTimes st1 @ [date]\<rparr>)))))"

fun submission_rows :: "env \<Rightarrow> submission_state \<Rightarrow> row list \<Rightarrow> error + submission_state" where
  "submission_rows e st [] = Inr st"
| "submission_rows e st (r # rs) =
     (case submission_row e st r of
        Inl err \<Rightarrow> Inl err
      | Inr st' \<Rightarrow> submission_rows e st' rs)"

definition name_counts_of :: "(string \<times> nat) list \<Rightarrow> name_counts" where
  "name_counts_of xs = \<lparr>names = map fst xs, counts = map snd xs\<rparr>"

text \<open>The running total of the counts, one point for each entry.\<close>

fun cumulative :: "nat \<Rightarrow> (string \<times> nat) list \<Rightarrow> point list" where
  "cumulative c [] = []"
| "cumulative c ((k, n) # xs) = (k, c + n) # cumulative (c + n) xs"

text \<open>
  The rows of one track: the keywords of all of them, the accepted ones, and the author
  names of the accepted ones.
\<close>

fun track_rows :: "env \<Rightarrow> row list \<Rightarrow> error + (string list \<times> row list \<times> string list)" where
  "track_rows e [] = Inr ([], [], [])"
| "track_rows e (r # rs) =
     (case keywords_of e r of
        Inl err \<Rightarrow> Inl err
      | Inr kws \<Rightarrow>
          (case (if is_accept r then author_names_of e r else Inr []) of
             Inl err \<Rightarrow> Inl err
           | Inr authors \<Rightarrow>
               (case track_rows e rs of
                  Inl err \<Rightarrow> Inl err
                | Inr (ks, acc, au) \<Rightarrow>
                    Inr (kws @ ks, (if is_accept r then r # acc else acc), authors @ au))))"

text \<open>\<open>comparableAcceptanceRate[paperGroup].push(rate)\<close> for the two named tracks.\<close>

definition push_comparable :: "comparable \<Rightarrow> string \<Rightarrow> jsnum \<Rightarrow> comparable" where
  "push_comparable t paperGroup rate =
     (if paperGroup = ''Full Papers'' then t\<lparr>Full_Papers := Full_Papers t @ [rate]\<rparr>
      else if paperGroup = ''Short Papers'' then t\<lparr>Short_Papers := Short_Papers t @ [rate]\<rparr>
      else t)"

text \<open>The body of the loop over the track groups.\<close>

definition track_group :: "env \<Rightarrow> track_state \<Rightarrow> string \<Rightarrow> row list \<Rightarrow> error + track_state" where
  "track_group e st paperGroup rows =
     (case track_rows e rows of
        Inl err \<Rightarrow> Inl err
      | Inr (currentGroupKeywords, acceptedPapersThisTrack, acceptedAuthorsThisTrack) \<Rightarrow>
          (let rate = jdiv (Fin (of_nat (length acceptedPapersThisTrack)))
                        (Fin (of_nat (length rows)))
           in Inr
                \<lparr>keywordsByTrack =
                   obj_set (keywordsByTrack st) paperGroup
                     (getSortedArrayFromMapUsingCount e
                        (countBy e (map JStr currentGroupKeywords))),
                 acceptanceRateByTrack = obj_set (acceptanceRateByTrack st) paperGroup rate,
                 topAuthorsByTrack =
                   obj_set (topAuthorsByTrack st) paperGroup
                     (name_counts_of
                        (getSortedArrayFromMapUsingCount e
                           (countBy e (map JStr acceptedAuthorsThisTrack)))),
                 comparableAcceptanceRate =
                   push_comparable (comparableAcceptanceRate st) paperGroup rate\<rparr>))"

fun track_loop :: "env \<Rightarrow> track_state \<Rightarrow> (row list) obj \<Rightarrow> error + track_state" where
  "track_loop e st [] = Inr st"
| "track_loop e st ((paperGroup, rows) # groups) =
     (case track_group e st paperGroup rows of
        Inl err \<Rightarrow> Inl err
      | Inr st' \<Rightarrow> track_loop e st' groups)"

definition track_init :: track_state where
  "track_init =
     \<lparr>keywordsByTrack = [], acceptanceRateByTrack = [], topAuthorsByTrack = [],
      comparableAcceptanceRate = comparable_init\<rparr>"

definition submission_data :: "env \<Rightarrow> string \<Rightarrow> row list" where
  "submission_data e file = Papa_parse e (submission_content file)"

definition getSubmissionInfo :: "env \<Rightarrow> string \<Rightarrow> error + submission_info info" where
  "getSubmissionInfo e file =
     (let rows = submission_data e file
      in case submission_rows e submission_init rows of
           Inl err \<Rightarrow> Inl err
         | Inr st \<Rightarrow>
             (let acceptedKeywordMap_v = countBy e (map JStr (acceptedKeywords st));
                  rejectedKeywordMap_v = countBy e (map JStr (rejectedKeywords st));
                  overallKeywordMap_v = countBy e (map JStr (allKeywords st));
                  subTimeCounts = countBy e (submissionTimes st);
                  updateTimeCounts = countBy e (lastUpdateTimes st);
                  timestamps = getSortedArrayFromMapUsingKey e subTimeCounts;
                  lastEditStamps = getSortedArrayFromMapUsingKey e updateTimeCounts;
                  paperGroupByTrackName = mapValues (groupBy e rows ''trackName'')
              in case track_loop e track_init paperGroupByTrackName of
                   Inl err \<Rightarrow> Inl err
                 | Inr ts \<Rightarrow>
                     Inr \<lparr>infoType = ''submission'',
                          infoData =
                            \<lparr>keywordsByTrack = keywordsByTrack ts,
                             acceptanceRateByTrack = acceptanceRateByTrack ts,
                             topAuthorsByTrack = topAuthorsByTrack ts,
                             comparableAcceptanceRate = comparableAcceptanceRate ts,
                             acceptanceRate =
                               jdiv (Fin (of_nat (length (acceptedSubs st))))
                                 (Fin (of_nat (length rows))),
                             overallKeywordMap = overallKeywordMap_v,
                             overallKeywordList =
                               getSortedArrayFromMapUsingCount e overallKeywordMap_v,
                             acceptedKeywordMap = acceptedKeywordMap_v,
                             acceptedKeywordList =
                               getSortedArrayFromMapUsingCount e acceptedKeywordMap_v,
                             rejectedKeywordMap = rejectedKeywordMap_v,
                             rejectedKeywordList =
                               getSortedArrayFromMapUsingCount e rejectedKeywordMap_v,
                             topAcceptedAuthors =
                               name_counts_of
                                 (getSortedArrayFromMapUsingCount e
                                    (countBy e (map JStr (acceptedAuthorNames st)))),
                             timeSeries = cumulative 0 timestamps,
                             lastEditSeries = cumulative 0 lastEditStamps\<rparr>\<rparr>))"

text \<open>
  Modelled from the spec: the function \<open>getSortedArrayFromMapUsingKey\<close> of \<open>./util\<close>,
  which is not among the sources. The spec has it return the \<open>(key, count)\<close> pairs of a
  frequency map sorted by key ascending, text compared lexicographically.
\<close>

definition spec_sortedByKeyAsc :: "nat obj \<Rightarrow> (string \<times> nat) list" where
  "spec_sortedByKeyAsc m = sort_key fst m"

text \<open>
  Modelled from the spec: the function \<open>getSortedArrayFromMapUsingCount\<close> of \<open>./util\<close>,
  which is not among the sources. The spec has it return the \<open>(label, count)\<close> pairs of
  a frequency map sorted by count descending, pairs of equal count in the order of the
  map.
\<close>

definition spec_sortedByCountDesc :: "nat obj \<Rightarrow> (string \<times> nat) list" where
  "spec_sortedByCountDesc m = sort_key (\<lambda>p. - int (snd p)) m"

text \<open>The rate of a group as the spec words it: accepted count over total count.\<close>

definition rate_of :: "row list \<Rightarrow> jsnum" where
  "rate_of g = jdiv (Fin (of_nat (length (filter is_accept g)))) (Fin (of_nat (length g)))"

subsection \<open>An environment for the examples\<close>

text \<open>
  The examples below run the analyzers in an environment whose parser returns given rows.
  Its number-to-text conversion prints whole numbers in decimal and any other finite
  number as a fraction; its \<open>toLowerCase\<close> and \<open>trim\<close> are the ASCII ones; its
  \<open>fillRange\<close> lists the bounds from \<open>start\<close> to \<open>end\<close> in steps, which is what the
  labels of \<open>getReviewInfo\<close> are cut from; the other functions of \<open>./util\<close> are the ones
  modelled from the spec.
\<close>

fun demo_numToString :: "jsnum \<Rightarrow> string" where
  "demo_numToString (Fin q) =
     (let (n, d) = quotient_of q
      in (if n < 0 then ''-'' else []) @ digits \<bar>n\<bar> @ (if d = 1 then [] else ''/'' @ digits d))"
| "demo_numToString NaN = ''NaN''"
| "demo_numToString PosInf = ''Infinity''"
| "demo_numToString NegInf = ''-Infinity''"

definition ascii_lower :: "char \<Rightarrow> char" where
  "ascii_lower c = (if CHR ''A'' \<le> c \<and> c \<le> CHR ''Z'' then char_of (of_char c + (32 :: nat)) else c)"

fun demo_fillRange :: "jsnum \<Rightarrow> jsnum \<Rightarrow> jsnum \<Rightarrow> jsnum list" where
  "demo_fillRange (Fin a) (Fin b) (Fin s) =
     (if 0 < s \<and> a \<le> b then map (\<lambda>i. Fin (a + of_nat i * s)) [0 ..< nat \<lfloor>(b - a) / s\<rfloor> + 1]
      else [])"
| "demo_fillRange _ _ _ = []"

definition demo_env :: "row list \<Rightarrow> env" where
  "demo_env rows =
     \<lparr>Papa_parse = (\<lambda>content. rows),
      numToString = demo_numToString,
      toLowerCase = map ascii_lower,
      trim = trim_ws,
      fillRange = demo_fillRange,
      util_sum = spec_sum,
      getSortedArrayFromMapUsingCount = spec_sortedByCountDesc,
      getSortedArrayFromMapUsingKey = spec_sortedByKeyAsc\<rparr>"

text \<open>The two score blocks of the review scenario.\<close>

definition block_yes :: string where
  "block_yes =
     ''Overall evaluation: 2'' @ [LF] @ ''Reviewer's confidence: 4'' @ [LF]
     @ ''Recommend for best paper: yes''"

definition block_no :: string where
  "block_no =
     ''Overall evaluation: -1'' @ [LF] @ ''Reviewer's confidence: 2'' @ [LF]
     @ ''Recommend for best paper: no''"

definition scenario_reviews :: "row list" where
  "scenario_reviews =
     [[(''reviewId'', JNum (Fin 1)), (''paperId'', JNum (Fin 7)), (''scores'', JStr block_yes)],
      [(''reviewId'', JNum (Fin 2)), (''paperId'', JNum (Fin 7)), (''scores'', JStr block_no)]]"

text \<open>
  The rows of the submission scenarios: two submissions of one track, one accepted and
  one rejected, sent on the same day, and a third one of another track a day later. The
  update times differ from the submit times.
\<close>

definition scenario_submissions :: "row list" where
  "scenario_submissions =
     [[(''submissionId'', JNum (Fin 1)), (''trackName'', JStr ''Full Papers''),
       (''authors'', JStr ''Ann Lee and Bo Chen''),
       (''submitTime'', JStr ''2020-01-01 10:00''),
       (''lastUpdateTime'', JStr ''2020-02-05 12:00''),
       (''keywords'', JStr (''Search'' @ [LF] @ ''Archives'')), (''decision'', JStr ''accept'')],
      [(''submissionId'', JNum (Fin 2)), (''trackName'', JStr ''Full Papers''),
       (''authors'', JStr ''Cy Diaz''),
       (''submitTime'', JStr ''2020-01-01 11:00''),
       (''lastUpdateTime'', JStr ''2020-02-06 08:30''),
       (''keywords'', JStr ''search''), (''decision'', JStr ''reject'')],
      [(''submissionId'', JNum (Fin 3)), (''trackName'', JStr ''Posters''),
       (''authors'', JStr ''Ann Lee''),
       (''submitTime'', JStr ''2020-01-02 09:00''),
       (''lastUpdateTime'', JStr ''2020-02-07 17:45''),
       (''keywords'', JStr ''metadata''), (''decision'', JStr ''accept'')]]"



section \<open>Verification\<close>

subsection \<open>Objects, counting and grouping\<close>

lemma map_of_insert_index:
  "map_of (insert_index k v m) k' = (if k' = k then Some v else map_of m k')"
  by (induction m) auto

lemma insert_index_split: "\<exists>xs ys. m = xs @ ys \<and> insert_index k v m = xs @ (k, v) # ys"
proof (induction m)
  case Nil
  then show ?case by simp
next
  case (Cons p m)
  then obtain xs ys where s: "m = xs @ ys" "insert_index k v m = xs @ (k, v) # ys"
    by (elim exE conjE)
  obtain k' v' where p: "p = (k', v')" by (cases p)
  show ?case
  proof (cases "is_array_index k' \<and> digits_val k' < digits_val k")
    case True
    then have "p # m = (p # xs) @ ys \<and> insert_index k v (p # m) = (p # xs) @ (k, v) # ys"
      using s by (simp add: p)
    then show ?thesis by (rule_tac x = "p # xs" in exI, rule_tac x = ys in exI)
  next
    case False
    then have "p # m = [] @ (p # m) \<and> insert_index k v (p # m) = [] @ (k, v) # (p # m)"
      by (auto simp: p)
    then show ?thesis by (rule_tac x = "[]" in exI, rule_tac x = "p # m" in exI)
  qed
qed

lemma keys_insert_index: "set (map fst (insert_index k v m)) = insert k (set (map fst m))"
proof -
  obtain xs ys where "m = xs @ ys" "insert_index k v m = xs @ (k, v) # ys"
    using insert_index_split [of m k v] by (elim exE conjE)
  then show ?thesis by simp
qed

lemma distinct_insert_index:
  "distinct (map fst m) \<Longrightarrow> k \<notin> set (map fst m) \<Longrightarrow> distinct (map fst (insert_index k v m))"
proof -
  assume a: "distinct (map fst m)" "k \<notin> set (map fst m)"
  obtain xs ys where "m = xs @ ys" "insert_index k v m = xs @ (k, v) # ys"
    using insert_index_split [of m k v] by (elim exE conjE)
  with a show ?thesis by auto
qed

lemma map_of_overwrite:
  "map_of (map (\<lambda>(k', v'). if k' = k then (k', v) else (k', v')) m) k'' =
     (if k'' = k \<and> k \<in> fst ` set m then Some v else map_of m k'')"
proof (induction m)
  case Nil
  show ?case by simp
next
  case (Cons p m)
  obtain k' v' where p: "p = (k', v')" by (cases p)
  show ?case
    using Cons.IH by (cases "k' = k"; cases "k'' = k") (simp_all add: p)
qed

lemma keys_overwrite:
  "map fst (map (\<lambda>(k', v'). if k' = k then (k', v) else (k', v')) m) = map fst m"
  by (induction m) auto

lemma map_of_snoc:
  "k \<notin> set (map fst m) \<Longrightarrow> map_of (m @ [(k, v)]) k' = (if k' = k then Some v else map_of m k')"
  by (induction m) auto

lemma obj_set_cases:
  "obj_set m k v =
     (if k \<in> set (map fst m) then map (\<lambda>(k', v'). if k' = k then (k', v) else (k', v')) m
      else if is_array_index k then insert_index k v m
      else m @ [(k, v)])"
  by (simp add: obj_set_def)

lemma map_of_obj_set:
  "map_of (obj_set m k v) k' = (if k' = k then Some v else map_of m k')"
proof (cases "k \<in> set (map fst m)")
  case True
  then have "k \<in> fst ` set m" by simp
  then show ?thesis
    unfolding obj_set_def by (simp only: map_of_overwrite if_True simp_thms)
next
  case False
  then have "k \<notin> fst ` set m" by simp
  with False show ?thesis
    unfolding obj_set_def
    by (cases "is_array_index k") (simp_all only: map_of_insert_index map_of_snoc if_True if_False simp_thms)
qed

lemma keys_obj_set: "set (map fst (obj_set m k v)) = insert k (set (map fst m))"
proof (cases "k \<in> set (map fst m)")
  case True
  then show ?thesis
    unfolding obj_set_cases by (simp only: keys_overwrite if_True insert_absorb)
next
  case False
  then show ?thesis
    unfolding obj_set_cases by (cases "is_array_index k") (simp_all add: keys_insert_index del: set_map)
qed

lemma distinct_obj_set:
  "distinct (map fst m) \<Longrightarrow> distinct (map fst (obj_set m k v))"
proof (cases "k \<in> set (map fst m)")
  case True
  assume "distinct (map fst m)"
  with True show ?thesis
    unfolding obj_set_cases by (simp only: keys_overwrite if_True)
next
  case False
  assume "distinct (map fst m)"
  with False show ?thesis
    unfolding obj_set_cases by (cases "is_array_index k") (simp_all add: distinct_insert_index del: set_map)
qed


lemma count_fold_distinct:
  "distinct (map fst m) \<Longrightarrow>
   distinct (map fst (foldl (\<lambda>m v. obj_set m (key v)
       (case map_of m (key v) of None \<Rightarrow> 1 | Some c \<Rightarrow> c + (1::nat))) m xs))"
  by (induction xs arbitrary: m) (simp_all add: distinct_obj_set)

lemma count_fold_map_of:
  "map_of (foldl (\<lambda>m v. obj_set m (key v)
       (case map_of m (key v) of None \<Rightarrow> 1 | Some c \<Rightarrow> c + (1::nat))) m xs) k =
     (case map_of m k of
        None \<Rightarrow> if k \<in> key ` set xs then Some (count_list (map key xs) k) else None
      | Some n \<Rightarrow> Some (n + count_list (map key xs) k))"
proof (induction xs arbitrary: m)
  case Nil
  show ?case by (simp split: option.splits)
next
  case (Cons x xs)
  show ?case
    unfolding foldl_Cons Cons.IH map_of_obj_set
    by (cases "k = key x") (auto split: option.splits simp: count_list_0_iff)
qed

lemma countBy_distinct: "distinct (map fst (countBy e xs))"
  unfolding countBy_def by (rule count_fold_distinct) simp

lemma countBy_map_of:
  "map_of (countBy e xs) k =
     (if k \<in> ToString e ` set xs then Some (count_list (map (ToString e) xs) k) else None)"
  unfolding countBy_def count_fold_map_of by simp

lemma countBy_keys: "set (map fst (countBy e xs)) = ToString e ` set xs"
proof -
  have "dom (map_of (countBy e xs)) = ToString e ` set xs"
    by (auto simp: countBy_map_of dom_def split: if_splits)
  then show ?thesis by (simp add: dom_map_of_conv_image_fst)
qed

lemma group_fold_distinct:
  "distinct (map fst m) \<Longrightarrow>
   distinct (map fst (foldl (\<lambda>m r. obj_set m (key r)
       (case map_of m (key r) of None \<Rightarrow> [r] | Some g \<Rightarrow> g @ [r])) m rows))"
  by (induction rows arbitrary: m) (simp_all add: distinct_obj_set)

lemma group_fold_map_of:
  "map_of (foldl (\<lambda>m r. obj_set m (key r)
       (case map_of m (key r) of None \<Rightarrow> [r] | Some g \<Rightarrow> g @ [r])) m rows) k =
     (case map_of m k of
        None \<Rightarrow> if filter (\<lambda>r. key r = k) rows = [] then None
                 else Some (filter (\<lambda>r. key r = k) rows)
      | Some g \<Rightarrow> Some (g @ filter (\<lambda>r. key r = k) rows))"
proof (induction rows arbitrary: m)
  case Nil
  show ?case by (simp split: option.splits)
next
  case (Cons x xs)
  show ?case
    unfolding foldl_Cons Cons.IH map_of_obj_set
    by (cases "k = key x") (auto split: option.splits)
qed

lemma groupBy_distinct: "distinct (map fst (groupBy e rows name))"
  unfolding groupBy_def by (rule group_fold_distinct) simp

lemma groupBy_map_of:
  "map_of (groupBy e rows name) k =
     (if filter (\<lambda>r. ToString e (field r name) = k) rows = [] then None
      else Some (filter (\<lambda>r. ToString e (field r name) = k) rows))"
  unfolding groupBy_def group_fold_map_of by simp

subsection \<open>The first pass of getSubmissionInfo\<close>

lemma split_acc_nonempty: "split_acc s0 ss cur s \<noteq> []"
  by (induction s0 ss cur s rule: split_acc.induct) auto

lemma hd_split_acc_char:
  "hd (split_acc c [] cur s) = rev cur @ takeWhile (\<lambda>x. x \<noteq> c) s"
  by (induction s arbitrary: cur) auto

lemma submit_date_eq: "submit_date r = Inr d \<Longrightarrow> d = JStr (date_part r)"
proof -
  assume a: "submit_date r = Inr d"
  then obtain s where s: "field r ''submitTime'' = JStr s"
    by (cases "field r ''submitTime''") (simp_all add: submit_date_def)
  have ne: "split_acc CHR '' '' [] [] s \<noteq> []" by (rule split_acc_nonempty)
  have "elem_at (split s '' '') 0 = JStr (hd (split_acc CHR '' '' [] [] s))"
    using ne by (simp add: elem_at_def split_def hd_conv_nth)
  then show ?thesis
    using a s by (simp add: submit_date_def date_part_def hd_split_acc_char)
qed

lemma submission_row_times:
  "submission_row e st r = Inr st' \<Longrightarrow>
     submissionTimes st' = submissionTimes st @ [JStr (date_part r)] \<and>
     lastUpdateTimes st' = lastUpdateTimes st @ [JStr (date_part r)] \<and>
     acceptedSubs st' = acceptedSubs st @ (if is_accept r then [r] else [])"
  unfolding submission_row_def
  by (auto split: sum.splits if_splits dest!: submit_date_eq simp: is_accept_def is_reject_def)

lemma submission_rows_times:
  "submission_rows e st rows = Inr st' \<Longrightarrow>
     submissionTimes st' = submissionTimes st @ map (\<lambda>r. JStr (date_part r)) rows \<and>
     lastUpdateTimes st' = lastUpdateTimes st @ map (\<lambda>r. JStr (date_part r)) rows \<and>
     acceptedSubs st' = acceptedSubs st @ filter is_accept rows"
proof (induction rows arbitrary: st)
  case Nil
  then show ?case by simp
next
  case (Cons r rows)
  from Cons.prems obtain st1 where
    1: "submission_row e st r = Inr st1" and 2: "submission_rows e st1 rows = Inr st'"
    by (auto split: sum.splits)
  from submission_row_times [OF 1] Cons.IH [OF 2] show ?case by auto
qed

subsection \<open>Header line and result shape\<close>





subsection \<open>Time series and empty input\<close>

text \<open>
  C4. Whenever \<open>getSubmissionInfo\<close> returns, \<open>lastEditSeries\<close> equals \<open>timeSeries\<close>: both
  are the running totals over the sorted counts of one and the same list of dates, the
  text of \<open>submitTime\<close> before the first space of every row; \<open>lastUpdateTime\<close> is not
  read.
\<close>

theorem last_edit_series_is_time_series:
  assumes "getSubmissionInfo e file = Inr r"
  shows "lastEditSeries (infoData r) = timeSeries (infoData r)
    \<and> timeSeries (infoData r) =
        cumulative 0 (getSortedArrayFromMapUsingKey e
          (countBy e (map (\<lambda>row. JStr (date_part row)) (submission_data e file))))"
proof -
  from assms obtain st where
    st: "submission_rows e submission_init (submission_data e file) = Inr st"
    by (auto simp: getSubmissionInfo_def Let_def split: sum.splits)
  have t: "submissionTimes st = map (\<lambda>row. JStr (date_part row)) (submission_data e file)"
    and u: "lastUpdateTimes st = map (\<lambda>row. JStr (date_part row)) (submission_data e file)"
    using submission_rows_times [OF st] by (simp_all add: submission_init_def)
  from assms st show ?thesis
    by (auto simp: getSubmissionInfo_def Let_def t u split: sum.splits)
qed

theorem last_edit_series_is_time_series_witness:
  "\<not> isl (getSubmissionInfo (demo_env scenario_submissions) [])
   \<and> lastEditSeries (infoData (projr (getSubmissionInfo (demo_env scenario_submissions) [])))
       = timeSeries (infoData (projr (getSubmissionInfo (demo_env scenario_submissions) [])))
   \<and> timeSeries (infoData (projr (getSubmissionInfo (demo_env scenario_submissions) [])))
       = [(''2020-01-01'', 2), (''2020-01-02'', 3)]"
proof -
  have 1: "\<not> isl (getSubmissionInfo (demo_env scenario_submissions) [])" by code_simp
  then obtain r where r: "getSubmissionInfo (demo_env scenario_submissions) [] = Inr r"
    by (cases "getSubmissionInfo (demo_env scenario_submissions) []") auto
  have 2: "timeSeries (infoData (projr (getSubmissionInfo (demo_env scenario_submissions) [])))
       = [(''2020-01-01'', 2), (''2020-01-02'', 3)]" by code_simp
  from last_edit_series_is_time_series [OF r] 1 2 r show ?thesis by simp
qed

text \<open>
  C3, as amended. An empty submission dataset makes \<open>getSubmissionInfo\<close> return, with
  \<open>acceptanceRate\<close> not a number and no per-track rate at all; an empty review batch makes
  \<open>getReviewInfo\<close> throw a \<open>TypeError\<close>, from \<open>reduce\<close> on the empty \<open>scoreList\<close>; and a
  group that \<open>groupBy\<close> returns is never empty, so no division by a group's size is a
  division by zero.
\<close>

theorem empty_input:
  "(submission_data e file = [] \<longrightarrow>
      (\<exists>r. getSubmissionInfo e file = Inr r \<and> acceptanceRate (infoData r) = NaN
           \<and> acceptanceRateByTrack (infoData r) = []))
   \<and> (review_rows e file = [] \<longrightarrow> getReviewInfo e file = Inl TypeError)
   \<and> (\<forall>k g. map_of (groupBy e rows name) k = Some g \<longrightarrow> g \<noteq> [])"
proof (intro conjI impI allI)
  assume "submission_data e file = []"
  then show "\<exists>r. getSubmissionInfo e file = Inr r \<and> acceptanceRate (infoData r) = NaN
           \<and> acceptanceRateByTrack (infoData r) = []"
    by (simp add: getSubmissionInfo_def Let_def groupBy_def mapValues_def track_init_def
          submission_init_def)
next
  assume "review_rows e file = []"
  then show "getReviewInfo e file = Inl TypeError"
    by (simp add: getReviewInfo_def Let_def groupBy_def mapValues_def review_init_def mean_def)
next
  fix k g
  assume "map_of (groupBy e rows name) k = Some g"
  then show "g \<noteq> []"
    by (auto simp: groupBy_map_of split: if_splits)
qed

theorem empty_input_witness:
  "submission_data (demo_env []) [] = []
   \<and> acceptanceRate (infoData (projr (getSubmissionInfo (demo_env []) []))) = NaN
   \<and> review_rows (demo_env []) [] = []
   \<and> getReviewInfo (demo_env []) [] = Inl TypeError
   \<and> map_of (groupBy (demo_env []) scenario_submissions ''trackName'') ''Posters''
       = Some [scenario_submissions ! 2]
   \<and> [scenario_submissions ! 2] \<noteq> []"
proof -
  have 1: "submission_data (demo_env []) [] = []" by code_simp
  have 2: "review_rows (demo_env []) [] = []" by code_simp
  have 3: "map_of (groupBy (demo_env []) scenario_submissions ''trackName'') ''Posters''
       = Some [scenario_submissions ! 2]" by code_simp
  from empty_input [of "demo_env []" "[]" scenario_submissions "''trackName''"] 1 2 3
  show ?thesis by auto
qed

text \<open>
  C3 as it was stated fails for the review analyzer: on a batch with no rows it throws,
  it does not return aggregates that are not a number.
\<close>

theorem empty_review_batch_throws:
  "review_rows (demo_env []) [] = [] \<and> getReviewInfo (demo_env []) [] = Inl TypeError"
  by code_simp

subsection \<open>Author names\<close>





subsection \<open>The loop over the track groups\<close>

lemma track_rows_accepted:
  "track_rows e g = Inr (ks, acc, au) \<Longrightarrow> acc = filter is_accept g"
proof (induction g arbitrary: ks acc au)
  case Nil
  then show ?case by simp
next
  case (Cons r g)
  from Cons.prems obtain ks' acc' au' where
    rest: "track_rows e g = Inr (ks', acc', au')"
    and acc: "acc = (if is_accept r then r # acc' else acc')"
    by (auto split: sum.splits if_splits)
  from Cons.IH [OF rest] acc show ?case by simp
qed

lemma track_group_effect:
  assumes "track_group e st k g = Inr st'"
  shows "acceptanceRateByTrack st' = obj_set (acceptanceRateByTrack st) k (rate_of g)"
    and "comparableAcceptanceRate st' = push_comparable (comparableAcceptanceRate st) k (rate_of g)"
proof -
  from assms obtain ks acc au where
    tr: "track_rows e g = Inr (ks, acc, au)"
    by (auto simp: track_group_def split: sum.splits)
  have acc: "acc = filter is_accept g" by (rule track_rows_accepted [OF tr])
  from assms tr show "acceptanceRateByTrack st' = obj_set (acceptanceRateByTrack st) k (rate_of g)"
    by (auto simp: track_group_def Let_def rate_of_def acc)
  from assms tr show
    "comparableAcceptanceRate st' = push_comparable (comparableAcceptanceRate st) k (rate_of g)"
    by (auto simp: track_group_def Let_def rate_of_def acc)
qed

lemma track_loop_rate:
  "track_loop e st groups = Inr st' \<Longrightarrow> distinct (map fst groups) \<Longrightarrow>
   map_of (acceptanceRateByTrack st') k =
     (case map_of groups k of
        Some g \<Rightarrow> Some (rate_of g)
      | None \<Rightarrow> map_of (acceptanceRateByTrack st) k)"
proof (induction groups arbitrary: st)
  case Nil
  then show ?case by simp
next
  case (Cons p groups)
  obtain k0 g0 where p: "p = (k0, g0)" by (cases p)
  from Cons.prems(1) obtain st1 where
    1: "track_group e st k0 g0 = Inr st1" and 2: "track_loop e st1 groups = Inr st'"
    by (auto simp: p split: sum.splits)
  from Cons.prems(2) have d: "distinct (map fst groups)" and n: "k0 \<notin> fst ` set groups"
    by (simp_all add: p)
  from n have none: "map_of groups k0 = None"
    by (simp add: map_of_eq_None_iff)
  show ?case
    unfolding Cons.IH [OF 2 d] track_group_effect(1) [OF 1] map_of_obj_set
    using none by (auto simp: p split: option.splits)
qed



lemma rate_of_unit:
  "g \<noteq> [] \<Longrightarrow>
   rate_of g = Fin (of_nat (length (filter is_accept g)) / of_nat (length g))
   \<and> (0 :: rat) \<le> of_nat (length (filter is_accept g)) / of_nat (length g)
   \<and> of_nat (length (filter is_accept g)) / of_nat (length g) \<le> (1 :: rat)"
proof -
  assume "g \<noteq> []"
  then have pos: "(0 :: rat) < of_nat (length g)" by simp
  have le: "(of_nat (length (filter is_accept g)) :: rat) \<le> of_nat (length g)"
    by (simp add: of_nat_le_iff)
  from pos le show ?thesis
    by (simp add: rate_of_def divide_le_eq_1)
qed

subsection \<open>Acceptance rates\<close>

lemma submission_result:
  assumes "getSubmissionInfo e file = Inr r"
  shows "\<exists>st ts.
      submission_rows e submission_init (submission_data e file) = Inr st
    \<and> track_loop e track_init (groupBy e (submission_data e file) ''trackName'') = Inr ts
    \<and> acceptanceRate (infoData r) =
        jdiv (Fin (of_nat (length (acceptedSubs st))))
          (Fin (of_nat (length (submission_data e file))))
    \<and> acceptanceRateByTrack (infoData r) = acceptanceRateByTrack ts
    \<and> comparableAcceptanceRate (infoData r) = comparableAcceptanceRate ts"
  using assms
  by (auto simp: getSubmissionInfo_def Let_def mapValues_def split: sum.splits)

text \<open>
  C6. Whenever \<open>getSubmissionInfo\<close> returns on a dataset that is not empty, the overall
  \<open>acceptanceRate\<close> is the number of rows whose \<open>decision\<close> is exactly the string
  \<open>accept\<close> over the number of rows, and every track group, which is the rows of that
  track name and is never empty, has that quotient of its own rows as its entry of
  \<open>acceptanceRateByTrack\<close>; each rate lies between \<open>0\<close> and \<open>1\<close>.
\<close>

theorem acceptance_rates:
  assumes "getSubmissionInfo e file = Inr r"
    and "rows = submission_data e file"
    and "rows \<noteq> []"
  shows "acceptanceRate (infoData r) =
        Fin (of_nat (length (filter is_accept rows)) / of_nat (length rows))
    \<and> (0 :: rat) \<le> of_nat (length (filter is_accept rows)) / of_nat (length rows)
    \<and> of_nat (length (filter is_accept rows)) / of_nat (length rows) \<le> (1 :: rat)
    \<and> (\<forall>k g. map_of (groupBy e rows ''trackName'') k = Some g \<longrightarrow>
          g = filter (\<lambda>row. ToString e (field row ''trackName'') = k) rows
        \<and> g \<noteq> []
        \<and> map_of (acceptanceRateByTrack (infoData r)) k =
            Some (Fin (of_nat (length (filter is_accept g)) / of_nat (length g)))
        \<and> (0 :: rat) \<le> of_nat (length (filter is_accept g)) / of_nat (length g)
        \<and> of_nat (length (filter is_accept g)) / of_nat (length g) \<le> (1 :: rat))"
proof -
  from submission_result [OF assms(1)] obtain st ts where
    st: "submission_rows e submission_init rows = Inr st"
    and ts: "track_loop e track_init (groupBy e rows ''trackName'') = Inr ts"
    and ar: "acceptanceRate (infoData r) =
        jdiv (Fin (of_nat (length (acceptedSubs st)))) (Fin (of_nat (length rows)))"
    and bt: "acceptanceRateByTrack (infoData r) = acceptanceRateByTrack ts"
    unfolding assms(2) by blast
  have acc: "acceptedSubs st = filter is_accept rows"
    using submission_rows_times [OF st] by (simp add: submission_init_def)
  have overall: "acceptanceRate (infoData r) = rate_of rows"
    by (simp add: ar acc rate_of_def)
  have groups: "map_of (groupBy e rows ''trackName'') k = Some g \<Longrightarrow>
          g = filter (\<lambda>row. ToString e (field row ''trackName'') = k) rows
        \<and> g \<noteq> []
        \<and> map_of (acceptanceRateByTrack (infoData r)) k =
            Some (Fin (of_nat (length (filter is_accept g)) / of_nat (length g)))
        \<and> (0 :: rat) \<le> of_nat (length (filter is_accept g)) / of_nat (length g)
        \<and> of_nat (length (filter is_accept g)) / of_nat (length g) \<le> (1 :: rat)" for k g
  proof -
    assume m: "map_of (groupBy e rows ''trackName'') k = Some g"
    then have g: "g = filter (\<lambda>row. ToString e (field row ''trackName'') = k) rows"
      and ne: "g \<noteq> []"
      by (auto simp: groupBy_map_of split: if_splits)
    have "map_of (acceptanceRateByTrack (infoData r)) k = Some (rate_of g)"
      unfolding bt track_loop_rate [OF ts groupBy_distinct] by (simp add: m)
    with rate_of_unit [OF ne] g ne show ?thesis by simp
  qed
  show ?thesis
  proof (intro conjI allI impI)
    show "acceptanceRate (infoData r) =
        Fin (of_nat (length (filter is_accept rows)) / of_nat (length rows))"
      using overall rate_of_unit [OF assms(3)] by simp
  qed (use rate_of_unit [OF assms(3)] groups in simp_all)
qed

theorem acceptance_rates_witness:
  "\<not> isl (getSubmissionInfo (demo_env scenario_submissions) [])
   \<and> scenario_submissions = submission_data (demo_env scenario_submissions) []
   \<and> scenario_submissions \<noteq> []
   \<and> acceptanceRate (infoData (projr (getSubmissionInfo (demo_env scenario_submissions) [])))
       = Fin (2 / 3)
   \<and> map_of (groupBy (demo_env scenario_submissions) scenario_submissions ''trackName'')
        ''Full Papers'' = Some (take 2 scenario_submissions)
   \<and> map (\<lambda>row. field row ''decision'') (take 2 scenario_submissions)
       = [JStr ''accept'', JStr ''reject'']
   \<and> map_of (acceptanceRateByTrack
         (infoData (projr (getSubmissionInfo (demo_env scenario_submissions) []))))
        ''Full Papers'' = Some (Fin (1 / 2))"
proof -
  have 1: "\<not> isl (getSubmissionInfo (demo_env scenario_submissions) [])" by code_simp
  then obtain r where r: "getSubmissionInfo (demo_env scenario_submissions) [] = Inr r"
    by (cases "getSubmissionInfo (demo_env scenario_submissions) []") auto
  have 2: "scenario_submissions = submission_data (demo_env scenario_submissions) []"
    by (simp add: submission_data_def demo_env_def)
  have 3: "scenario_submissions \<noteq> []" by code_simp
  have 4: "map_of (groupBy (demo_env scenario_submissions) scenario_submissions ''trackName'')
        ''Full Papers'' = Some (take 2 scenario_submissions)" by code_simp
  have 5: "map (\<lambda>row. field row ''decision'') (take 2 scenario_submissions)
       = [JStr ''accept'', JStr ''reject'']" by code_simp
  have 6: "(of_nat (length (filter is_accept scenario_submissions))
        / of_nat (length scenario_submissions) :: rat) = 2 / 3" by code_simp
  have 7: "(of_nat (length (filter is_accept (take 2 scenario_submissions)))
        / of_nat (length (take 2 scenario_submissions)) :: rat) = 1 / 2" by code_simp
  note t = acceptance_rates [OF r 2 3, unfolded 6]
  from t have a: "acceptanceRate (infoData r) = Fin (2 / 3)"
    by (rule conjunct1)
  from t have "\<forall>k g. map_of (groupBy (demo_env scenario_submissions) scenario_submissions
        ''trackName'') k = Some g \<longrightarrow>
      map_of (acceptanceRateByTrack (infoData r)) k =
        Some (Fin (of_nat (length (filter is_accept g)) / of_nat (length g)))"
    by simp
  from this [rule_format, OF 4, unfolded 7]
  have b: "map_of (acceptanceRateByTrack (infoData r)) ''Full Papers'' = Some (Fin (1 / 2))" .
  from 1 3 5 a b r show ?thesis
    using 2 4 by simp
qed



subsection \<open>Running totals over sorted counts\<close>

lemma map_fst_cumulative: "map fst (cumulative c xs) = map fst xs"
  by (induction c xs rule: cumulative.induct) auto

lemma cumulative_total:
  "(d, y) \<in> set (cumulative c xs) \<Longrightarrow> sorted (map fst xs) \<Longrightarrow> distinct (map fst xs) \<Longrightarrow>
   y = c + sum_list (map snd (filter (\<lambda>p. fst p \<le> d) xs))"
proof (induction c xs rule: cumulative.induct)
  case (1 c)
  then show ?case by simp
next
  case (2 c k n xs)
  from "2.prems"(2) have s: "sorted (map fst xs)" and le: "\<forall>p \<in> set xs. k \<le> fst p"
    by simp_all
  from "2.prems"(3) have dist: "distinct (map fst xs)" and ne: "\<forall>p \<in> set xs. k \<noteq> fst p"
    by (simp_all add: image_iff)
  from le ne have above: "\<forall>p \<in> set xs. k < fst p"
    by (simp add: less_le)
  from "2.prems"(1) consider "d = k \<and> y = c + n" | "(d, y) \<in> set (cumulative (c + n) xs)"
    by auto
  then show ?case
  proof cases
    case 1
    from above have "filter (\<lambda>p. fst p \<le> k) xs = []"
      by (auto simp: filter_empty_conv)
    with 1 show ?thesis by simp
  next
    case 2
    then have "fst (d, y) \<in> fst ` set (cumulative (c + n) xs)"
      by (rule imageI)
    then have "d \<in> set (map fst (cumulative (c + n) xs))"
      by simp
    then have "d \<in> set (map fst xs)" by (simp only: map_fst_cumulative)
    with above have "k \<le> d" by auto
    with "2.IH" [OF 2 s dist] show ?thesis by simp
  qed
qed

lemma count_list_filter: "P k \<Longrightarrow> count_list (filter P ds) k = count_list ds k"
  by (induction ds) auto

lemma sum_counts_filter:
  "sum (count_list ds) {k \<in> set ds. P k} = length (filter P ds)"
proof -
  have eq: "{k \<in> set ds. P k} = set (filter P ds)"
    by auto
  have "sum (count_list ds) (set (filter P ds)) = sum (count_list (filter P ds)) (set (filter P ds))"
    by (rule sum.cong) (simp_all add: count_list_filter)
  also have "\<dots> = length (filter P ds)"
    by (rule sum_count_set) simp_all
  finally show ?thesis unfolding eq .
qed

lemma counted_entries_sum:
  assumes "distinct (map fst xs)"
    and "\<forall>p \<in> set xs. snd p = count_list ds (fst p)"
    and "set (map fst xs) = set ds"
  shows "sum_list (map snd (filter (\<lambda>p. P (fst p)) xs)) = length (filter P ds)"
proof -
  have "map snd (filter (\<lambda>p. P (fst p)) xs) = map (count_list ds) (filter P (map fst xs))"
    using assms(2) by (induction xs) auto
  then have "sum_list (map snd (filter (\<lambda>p. P (fst p)) xs))
      = sum_list (map (count_list ds) (filter P (map fst xs)))" by simp
  also have "\<dots> = sum (count_list ds) (set (filter P (map fst xs)))"
    using assms(1) by (simp add: sum_list_distinct_conv_sum_set)
  also have "set (filter P (map fst xs)) = {k \<in> set ds. P k}"
    using assms(3) by auto
  finally show ?thesis by (simp add: sum_counts_filter)
qed

lemma sorted_by_key_props:
  assumes "distinct (map fst m)"
  shows "sorted (map fst (spec_sortedByKeyAsc m))"
    and "distinct (map fst (spec_sortedByKeyAsc m))"
    and "set (spec_sortedByKeyAsc m) = set m"
proof -
  show s: "set (spec_sortedByKeyAsc m) = set m"
    by (simp add: spec_sortedByKeyAsc_def)
  show "sorted (map fst (spec_sortedByKeyAsc m))"
    by (simp add: spec_sortedByKeyAsc_def)
  have "card (set (map fst (spec_sortedByKeyAsc m))) = length (map fst (spec_sortedByKeyAsc m))"
    using distinct_card [OF assms] s by (simp add: spec_sortedByKeyAsc_def)
  then show "distinct (map fst (spec_sortedByKeyAsc m))"
    by (rule card_distinct)
qed

subsection \<open>The time series\<close>

lemma submission_series:
  assumes "getSubmissionInfo e file = Inr r"
  shows "timeSeries (infoData r) =
        cumulative 0 (getSortedArrayFromMapUsingKey e
          (countBy e (map (\<lambda>row. JStr (date_part row)) (submission_data e file))))"
    and "lastEditSeries (infoData r) =
        cumulative 0 (getSortedArrayFromMapUsingKey e
          (countBy e (map (\<lambda>row. JStr (date_part row)) (submission_data e file))))"
proof -
  from assms obtain st where
    st: "submission_rows e submission_init (submission_data e file) = Inr st"
    by (auto simp: getSubmissionInfo_def Let_def split: sum.splits)
  have t: "submissionTimes st = map (\<lambda>row. JStr (date_part row)) (submission_data e file)"
    and u: "lastUpdateTimes st = map (\<lambda>row. JStr (date_part row)) (submission_data e file)"
    using submission_rows_times [OF st] by (simp_all add: submission_init_def)
  from assms st show "timeSeries (infoData r) =
        cumulative 0 (getSortedArrayFromMapUsingKey e
          (countBy e (map (\<lambda>row. JStr (date_part row)) (submission_data e file))))"
    by (auto simp: getSubmissionInfo_def Let_def t split: sum.splits)
  from assms st show "lastEditSeries (infoData r) =
        cumulative 0 (getSortedArrayFromMapUsingKey e
          (countBy e (map (\<lambda>row. JStr (date_part row)) (submission_data e file))))"
    by (auto simp: getSubmissionInfo_def Let_def u split: sum.splits)
qed

lemma sorted_le_last: "sorted xs \<Longrightarrow> x \<in> set xs \<Longrightarrow> x \<le> last xs"
proof (induction xs)
  case Nil
  then show ?case by simp
next
  case (Cons a xs)
  show ?case
  proof (cases "xs = []")
    case True
    with Cons.prems show ?thesis by simp
  next
    case False
    then have l: "last xs \<in> set xs" by simp
    from Cons.prems(1) have s: "sorted xs" and a: "\<forall>y \<in> set xs. a \<le> y" by simp_all
    from Cons.prems(2) consider "x = a" | "x \<in> set xs" by auto
    then show ?thesis
    proof cases
      case 1
      with a l False show ?thesis by simp
    next
      case 2
      with Cons.IH [OF s] False show ?thesis by simp
    qed
  qed
qed

lemma date_counts:
  fixes rows :: "row list" and e :: env
  defines "m \<equiv> countBy e (map (\<lambda>row. JStr (date_part row)) rows)"
  shows "distinct (map fst m)"
    and "set (map fst m) = set (map date_part rows)"
    and "\<forall>p \<in> set m. snd p = count_list (map date_part rows) (fst p)"
proof -
  show d: "distinct (map fst m)"
    unfolding m_def by (rule countBy_distinct)
  show k: "set (map fst m) = set (map date_part rows)"
    unfolding m_def countBy_keys by (simp add: image_image)
  show "\<forall>p \<in> set m. snd p = count_list (map date_part rows) (fst p)"
  proof
    fix p assume p: "p \<in> set m"
    then have "map_of m (fst p) = Some (snd p)"
      using map_of_eq_Some_iff [OF d, of "fst p" "snd p"] by simp
    moreover have "map (ToString e) (map (\<lambda>row. JStr (date_part row)) rows) = map date_part rows"
      by simp
    ultimately show "snd p = count_list (map date_part rows) (fst p)"
      unfolding m_def countBy_map_of by (simp add: comp_def split: if_splits)
  qed
qed

text \<open>
  C7. With the sort function of \<open>./util\<close> as the spec describes it, whenever
  \<open>getSubmissionInfo\<close> returns, \<open>timeSeries\<close> has one point for each distinct submit date
  (the text of \<open>submitTime\<close> before the first space), the dates ascending; the \<open>y\<close> of a
  point is the number of rows submitted on or before its date, and the \<open>y\<close> of the last
  point is the number of rows.
\<close>

theorem time_series_cumulative:
  assumes "getSubmissionInfo e file = Inr r"
    and "getSortedArrayFromMapUsingKey e = spec_sortedByKeyAsc"
    and "rows = submission_data e file"
  shows "map fst (timeSeries (infoData r)) = sorted_list_of_set (date_part ` set rows)
    \<and> (\<forall>p \<in> set (timeSeries (infoData r)).
          snd p = length (filter (\<lambda>row. date_part row \<le> fst p) rows))
    \<and> (rows \<noteq> [] \<longrightarrow>
          timeSeries (infoData r) \<noteq> []
        \<and> snd (last (timeSeries (infoData r))) = length rows)"
proof -
  define m where "m = countBy e (map (\<lambda>row. JStr (date_part row)) rows)"
  define xs where "xs = spec_sortedByKeyAsc m"
  define ts where "ts = timeSeries (infoData r)"
  have ts: "ts = cumulative 0 xs"
    unfolding ts_def xs_def m_def assms(3) submission_series(1) [OF assms(1)] assms(2) ..
  note dc = date_counts [of e rows, folded m_def]
  note sp = sorted_by_key_props [OF dc(1), folded xs_def]
  have keys: "set (map fst xs) = date_part ` set rows"
    using sp(3) dc(2) by simp
  have counted: "\<forall>p \<in> set xs. snd p = count_list (map date_part rows) (fst p)"
    using dc(3) sp(3) by simp
  have dates: "map fst ts = sorted_list_of_set (date_part ` set rows)"
  proof (rule sorted_distinct_set_unique)
    show "sorted (map fst ts)" "distinct (map fst ts)"
      unfolding ts map_fst_cumulative using sp by simp_all
    show "set (map fst ts) = set (sorted_list_of_set (date_part ` set rows))"
      unfolding ts map_fst_cumulative keys by simp
  qed simp_all
  have totals: "snd p = length (filter (\<lambda>row. date_part row \<le> fst p) rows)"
    if p: "p \<in> set ts" for p
  proof -
    from p have "(fst p, snd p) \<in> set (cumulative 0 xs)"
      by (simp add: ts)
    from cumulative_total [OF this sp(1) sp(2)]
    have "snd p = sum_list (map snd (filter (\<lambda>q. fst q \<le> fst p) xs))" by simp
    also have "\<dots> = length (filter (\<lambda>k. k \<le> fst p) (map date_part rows))"
      using counted keys by (intro counted_entries_sum [OF sp(2)]) simp_all
    finally show ?thesis by (simp add: filter_map comp_def)
  qed
  have final: "ts \<noteq> [] \<and> snd (last ts) = length rows" if ne: "rows \<noteq> []"
  proof -
    from ne keys have "map fst ts \<noteq> []"
      unfolding ts map_fst_cumulative by (cases xs) auto
    then have tne: "ts \<noteq> []" by auto
    then have l: "last ts \<in> set ts" by simp
    have "date_part row \<le> fst (last ts)" if "row \<in> set rows" for row
    proof -
      from that have "date_part row \<in> set (map fst ts)"
        unfolding ts map_fst_cumulative keys by simp
      moreover have "sorted (map fst ts)"
        unfolding ts map_fst_cumulative by (rule sp(1))
      ultimately have "date_part row \<le> last (map fst ts)"
        by (rule sorted_le_last [rotated])
      then show ?thesis using tne by (simp add: last_map)
    qed
    then have "filter (\<lambda>row. date_part row \<le> fst (last ts)) rows = rows"
      by (simp add: filter_id_conv)
    with totals [OF l] tne show ?thesis by simp
  qed
  from dates totals final show ?thesis
    unfolding ts_def by blast
qed

theorem time_series_cumulative_witness:
  "\<not> isl (getSubmissionInfo (demo_env scenario_submissions) [])
   \<and> getSortedArrayFromMapUsingKey (demo_env scenario_submissions) = spec_sortedByKeyAsc
   \<and> map (\<lambda>row. field row ''submitTime'') scenario_submissions
       = [JStr ''2020-01-01 10:00'', JStr ''2020-01-01 11:00'', JStr ''2020-01-02 09:00'']
   \<and> timeSeries (infoData (projr (getSubmissionInfo (demo_env scenario_submissions) [])))
       = [(''2020-01-01'', 2), (''2020-01-02'', 3)]
   \<and> map fst (timeSeries (infoData (projr (getSubmissionInfo (demo_env scenario_submissions) []))))
       = sorted_list_of_set (date_part ` set scenario_submissions)
   \<and> snd (last (timeSeries (infoData (projr (getSubmissionInfo (demo_env scenario_submissions) [])))))
       = length scenario_submissions"
proof -
  have 1: "\<not> isl (getSubmissionInfo (demo_env scenario_submissions) [])" by code_simp
  then obtain r where r: "getSubmissionInfo (demo_env scenario_submissions) [] = Inr r"
    by (cases "getSubmissionInfo (demo_env scenario_submissions) []") auto
  have 2: "getSortedArrayFromMapUsingKey (demo_env scenario_submissions) = spec_sortedByKeyAsc"
    by (simp add: demo_env_def)
  have 3: "scenario_submissions = submission_data (demo_env scenario_submissions) []"
    by (simp add: submission_data_def demo_env_def)
  have 4: "map (\<lambda>row. field row ''submitTime'') scenario_submissions
       = [JStr ''2020-01-01 10:00'', JStr ''2020-01-01 11:00'', JStr ''2020-01-02 09:00'']"
    by code_simp
  have 5: "timeSeries (infoData (projr (getSubmissionInfo (demo_env scenario_submissions) [])))
       = [(''2020-01-01'', 2), (''2020-01-02'', 3)]" by code_simp
  have 6: "scenario_submissions \<noteq> []" by code_simp
  from time_series_cumulative [OF r 2 3] 6 r 1 2 4 5 show ?thesis by simp
qed

subsection \<open>The loop over the submissions of getReviewInfo\<close>









subsection \<open>Weighted scores and distribution columns\<close>




text \<open>
  C2, at the input of the review scenario. The weighted recommend \<open>2/3\<close> gives the column
  \<open>Math.min((2/3 / 0.1).toFixed(1), 9) = 6.7\<close>, which is no array index, so
  \<open>recommendDistributionCounts[6.7] += 1\<close> changes no element of the array: the run of the
  scenario leaves every bucket as \<open>fillRange\<close> returned it and stores \<open>NaN\<close> under the
  property \<open>6.7\<close>.
\<close>

theorem fractional_column_counts_nothing:
  "recommendColumn e (Fin (2 / 3)) = Fin (67 / 10)
   \<and> \<not> is_index (Fin (67 / 10))
   \<and> elems (incr a (Fin (67 / 10))) = elems a
   \<and> elems (dist_counts (recommendDistribution
        (infoData (projr (getReviewInfo (demo_env scenario_reviews) [])))))
       = elems (array_of (fillRange (demo_env scenario_reviews) (Fin 0) (Fin 1) (Fin (1 / 10))))
   \<and> props (dist_counts (recommendDistribution
        (infoData (projr (getReviewInfo (demo_env scenario_reviews) [])))))
       = [(Fin (67 / 10), JNum NaN)]"
proof -
  have t: "toFixed1 e (Fin (20 / 3)) = ''6.7''"
    by code_simp
  have n: "StringToNumber ''6.7'' = Fin (67 / 10)" by code_simp
  have d: "jdiv (Fin (2 / 3)) (Fin (1 / 10)) = Fin (20 / 3)" by simp
  have 1: "recommendColumn e (Fin (2 / 3)) = Fin (67 / 10)"
    unfolding recommendColumn_def column_def d t n by simp
  have 2: "\<not> is_index (Fin (67 / 10))" by code_simp
  have 3: "elems (incr a (Fin (67 / 10))) = elems a"
    unfolding incr_def using 2 by (simp del: is_index.simps)
  have 4: "elems (dist_counts (recommendDistribution
        (infoData (projr (getReviewInfo (demo_env scenario_reviews) [])))))
       = elems (array_of (fillRange (demo_env scenario_reviews) (Fin 0) (Fin 1) (Fin (1 / 10))))"
    by code_simp
  have 5: "props (dist_counts (recommendDistribution
        (infoData (projr (getReviewInfo (demo_env scenario_reviews) [])))))
       = [(Fin (67 / 10), JNum NaN)]"
    by code_simp
  from 1 2 3 4 5 show ?thesis by (intro conjI)
qed

end
